theory Spec2Isabelle
  imports Main
begin

section \<open>Data model of \<open>groupy/resources.py\<close>\<close>

text \<open>
  A resource holds the keyword arguments of its constructor in \<open>self.data\<close>, a Python
  dict with string keys. The records exchanged with the membership endpoints are
  JSON objects whose fields (\<open>guid\<close>, \<open>id\<close>, \<open>user_id\<close>, \<open>group_id\<close>, \<open>nickname\<close>,
  \<open>results_id\<close>) are strings, so a dict is a finite map from strings to strings.
\<close>

type_synonym dict = "string \<rightharpoonup> string"

text \<open>
  The exceptions that the modelled methods raise or let through. \<open>ResultsNotReady\<close> and
  \<open>ResultsExpired\<close> are the two classes of \<open>groupy.exceptions\<close> that
  \<open>_check_if_ready\<close> catches; their argument identifies the raised instance.
  \<open>AttributeError cls attr\<close> is the error of \<open>Resource.__getattr__\<close>, whose message is
  formatted from the class name and the attribute. \<open>RequestError\<close> stands for any
  other exception that the manager raises.
\<close>

datatype exn =
    ResultsNotReady string
  | ResultsExpired string
  | AttributeError string string
  | KeyError string
  | TypeError string
  | ValueError string
  | RequestError string

text \<open>
  \<open>Resource.__getattr__\<close>: a field missing from \<open>self.data\<close> raises \<open>AttributeError\<close>.
\<close>

definition getattr :: "string \<Rightarrow> dict \<Rightarrow> string \<Rightarrow> exn + string" where
  "getattr klass data attr =
     (case data attr of
        None \<Rightarrow> Inl (AttributeError klass attr)
      | Some v \<Rightarrow> Inr v)"

subsection \<open>Member\<close>

text \<open>
  \<open>Member.__init__(self, manager, group_id, **data)\<close> keeps \<open>data\<close> (the keyword
  arguments without \<open>group_id\<close>), builds a direct-message manager from
  \<open>self.user_id\<close> and a membership manager from \<open>group_id\<close>. The managers are
  represented by the argument they are built from.
\<close>

record Member =
  m_data :: dict
  m_messages :: string
  m_memberships :: string

text \<open>
  The call \<open>Member(self.manager, **kwargs)\<close>: the manager is passed positionally, so a
  keyword named \<open>self\<close> or \<open>manager\<close> is a duplicate argument and a missing
  \<open>group_id\<close> keyword is a missing positional argument (both \<open>TypeError\<close>); then
  \<open>self.user_id\<close> is read through \<open>__getattr__\<close>.
\<close>

definition Member_init :: "dict \<Rightarrow> exn + Member" where
  "Member_init kwargs =
     (case kwargs ''self'' of
        Some _ \<Rightarrow> Inl (TypeError ''__init__() got multiple values for argument self'')
      | None \<Rightarrow>
     (case kwargs ''manager'' of
        Some _ \<Rightarrow> Inl (TypeError ''__init__() got multiple values for argument manager'')
      | None \<Rightarrow>
     (case kwargs ''group_id'' of
        None \<Rightarrow> Inl (TypeError ''__init__() missing 1 required positional argument: group_id'')
      | Some group_id \<Rightarrow>
          (let data = kwargs(''group_id'' := None) in
           case getattr ''Member'' data ''user_id'' of
             Inl e \<Rightarrow> Inl e
           | Inr user_id \<Rightarrow>
               Inr \<lparr>m_data = data, m_messages = user_id, m_memberships = group_id\<rparr>))))"

text \<open>
  \<open>Member.__repr__\<close> formats the class name and the \<open>repr\<close> of two fields read
  through \<open>__getattr__\<close>. Python's built-in \<open>repr\<close> of a string is the parameter
  \<open>py_repr\<close>.
\<close>

definition Member_repr :: "(string \<Rightarrow> string) \<Rightarrow> Member \<Rightarrow> exn + string" where
  "Member_repr py_repr self =
     (case getattr ''Member'' (m_data self) ''user_id'' of
        Inl e \<Rightarrow> Inl e
      | Inr user_id \<Rightarrow>
          (case getattr ''Member'' (m_data self) ''nickname'' of
             Inl e \<Rightarrow> Inl e
           | Inr nickname \<Rightarrow>
               Inr (''<'' @ ''Member'' @ ''(user_id='' @ py_repr user_id
                    @ '', nickname='' @ py_repr nickname @ '')>'')))"

subsection \<open>MembershipRequest\<close>

text \<open>\<open>Results = namedtuple('Results', 'members failures')\<close>.\<close>

record Results =
  members :: "Member list"
  failures :: "dict list"

text \<open>
  The instance attributes set by \<open>MembershipRequest.__init__\<close>; the fields with a
  leading underscore in the source carry the prefix \<open>p_\<close>.
\<close>

record MembershipRequest =
  mr_data :: dict
  p_requests :: "dict list"
  p_expired_exception :: "exn option"
  p_not_ready_exception :: "exn option"
  p_is_ready :: bool
  results :: "Results option"

definition MembershipRequest_init :: "dict list \<Rightarrow> dict \<Rightarrow> MembershipRequest" where
  "MembershipRequest_init requests data =
     \<lparr>mr_data = data, p_requests = requests, p_expired_exception = None,
      p_not_ready_exception = None, p_is_ready = False, results = None\<rparr>"

text \<open>
  The dict comprehension \<open>{member['guid']: member for member in results}\<close>: a later
  record with the same guid overwrites an earlier one, a record without \<open>guid\<close>
  raises \<open>KeyError\<close>.
\<close>

fun index_by_guid :: "dict list \<Rightarrow> (string \<rightharpoonup> dict) \<Rightarrow> exn + (string \<rightharpoonup> dict)" where
  "index_by_guid [] data = Inr data"
| "index_by_guid (member # rest) data =
     (case member ''guid'' of
        None \<Rightarrow> Inl (KeyError ''guid'')
      | Some g \<Rightarrow> index_by_guid rest (data(g \<mapsto> member)))"

text \<open>
  The \<open>for request in self._requests\<close> loop. The lookup \<open>data[request['guid']]\<close> is
  inside the \<open>try\<close>, so a request without \<open>guid\<close> and a guid missing from \<open>data\<close>
  both end in \<open>failures\<close> (the accumulator \<open>fs\<close>; \<open>ms\<close> is \<open>members\<close>).
  \<open>member_data.pop('guid')\<close> is outside it and mutates the
  dict held by \<open>data\<close>: the index is passed on with the popped record, and a second
  pop of the same record raises \<open>KeyError\<close>.
\<close>

fun process_requests ::
  "(string \<rightharpoonup> dict) \<Rightarrow> dict list \<Rightarrow> Member list \<Rightarrow> dict list \<Rightarrow> exn + (Member list \<times> dict list)"
where
  "process_requests data [] ms fs = Inr (ms, fs)"
| "process_requests data (request # rest) ms fs =
     (case request ''guid'' of
        None \<Rightarrow> process_requests data rest ms (fs @ [request])
      | Some g \<Rightarrow>
          (case data g of
             None \<Rightarrow> process_requests data rest ms (fs @ [request])
           | Some member_data \<Rightarrow>
               (case member_data ''guid'' of
                  None \<Rightarrow> Inl (KeyError ''guid'')
                | Some _ \<Rightarrow>
                    (let popped = member_data(''guid'' := None) in
                     case Member_init popped of
                       Inl e \<Rightarrow> Inl e
                     | Inr member \<Rightarrow>
                         process_requests (data(g \<mapsto> popped)) rest (ms @ [member]) fs))))"

definition process_new_members :: "MembershipRequest \<Rightarrow> dict list \<Rightarrow> exn + MembershipRequest" where
  "process_new_members self results_in =
     (case index_by_guid results_in Map.empty of
        Inl e \<Rightarrow> Inl e
      | Inr data \<Rightarrow>
          (case process_requests data (p_requests self) [] [] of
             Inl e \<Rightarrow> Inl e
           | Inr (ms, fs) \<Rightarrow>
               Inr (self\<lparr>results := Some \<lparr>members = ms, failures = fs\<rparr>\<rparr>)))"

subsection \<open>The environment: manager, clock and sleep\<close>

text \<open>
  \<open>self.manager.check\<close> is outside this module. Its behaviour is a parameter: what
  the \<open>n\<close>-th call (counted from 0) does when given a results id, either raising an
  exception or returning the list of raw member records. The world records the
  calls made to \<open>check\<close> and the arguments of \<open>time.sleep\<close>, in order.
\<close>

type_synonym manager = "nat \<Rightarrow> string \<Rightarrow> exn + dict list"

record world =
  calls :: "string list"
  naps :: "int list"

text \<open>
  \<open>_check_if_ready\<close>: \<open>self.results_id\<close> is read through \<open>__getattr__\<close> before the
  call. A returned list sets \<open>_is_ready\<close> and clears \<open>_not_ready_exception\<close> before
  \<open>_process_new_members\<close> runs, so these assignments stay when it raises. Only the
  two results exceptions are caught.
\<close>

definition check_if_ready ::
  "manager \<Rightarrow> MembershipRequest \<times> world \<Rightarrow> (exn + unit) \<times> MembershipRequest \<times> world"
where
  "check_if_ready mgr st =
     (case st of (self, w) \<Rightarrow>
        (case getattr ''MembershipRequest'' (mr_data self) ''results_id'' of
           Inl e \<Rightarrow> (Inl e, self, w)
         | Inr results_id \<Rightarrow>
             (let w' = w\<lparr>calls := calls w @ [results_id]\<rparr> in
              case mgr (length (calls w)) results_id of
                Inr res \<Rightarrow>
                  (let self1 = self\<lparr>p_is_ready := True, p_not_ready_exception := None\<rparr> in
                   case process_new_members self1 res of
                     Inl e \<Rightarrow> (Inl e, self1, w')
                   | Inr self2 \<Rightarrow> (Inr (), self2, w'))
              | Inl (ResultsNotReady x) \<Rightarrow>
                  (Inr (),
                   self\<lparr>p_is_ready := False,
                        p_not_ready_exception := Some (ResultsNotReady x)\<rparr>, w')
              | Inl (ResultsExpired x) \<Rightarrow>
                  (Inr (),
                   self\<lparr>p_is_ready := True,
                        p_expired_exception := Some (ResultsExpired x)\<rparr>, w')
              | Inl e \<Rightarrow> (Inl e, self, w'))))"

definition is_ready ::
  "manager \<Rightarrow> MembershipRequest \<times> world \<Rightarrow> (exn + bool) \<times> MembershipRequest \<times> world"
where
  "is_ready mgr st =
     (if \<not> p_is_ready (fst st)
      then (case check_if_ready mgr st of
              (Inl e, st') \<Rightarrow> (Inl e, st')
            | (Inr _, st') \<Rightarrow> (Inr (p_is_ready (fst st')), st'))
      else (Inr (p_is_ready (fst st)), st))"

text \<open>
  \<open>get\<close>: an exception instance is truthy, \<open>None\<close> is falsy, so each test is whether
  the field holds an exception.
\<close>

definition get :: "MembershipRequest \<Rightarrow> exn + Results option" where
  "get self =
     (case p_expired_exception self of
        Some e \<Rightarrow> Inl e
      | None \<Rightarrow>
          (case p_not_ready_exception self of
             Some e \<Rightarrow> Inl e
           | None \<Rightarrow> Inr (results self)))"

text \<open>
  \<open>time.sleep(interval)\<close> raises \<open>ValueError\<close> for a negative length and is logged
  otherwise.
\<close>

definition sleep :: "int \<Rightarrow> world \<Rightarrow> exn + world" where
  "sleep interval w =
     (if interval < 0 then Inl (ValueError ''sleep length must be non-negative'')
      else Inr (w\<lparr>naps := naps w @ [interval]\<rparr>))"

text \<open>
  \<open>poll\<close>: time is counted in clock ticks. The successive values returned by
  \<open>time.time()\<close> are given as a list: the first is \<open>start\<close>, each evaluation of the
  loop condition reads the next one. \<open>is_ready\<close> is called only when the elapsed
  time is below the timeout (\<open>and\<close> short-circuits). The loop ends normally with
  \<open>Inr ()\<close>, or with the exception that \<open>is_ready\<close> or \<open>sleep\<close> raised; it has no
  value (\<open>None\<close>) when the list of clock readings ends before the loop does.
\<close>

fun poll_loop ::
  "manager \<Rightarrow> int \<Rightarrow> int \<Rightarrow> int \<Rightarrow> int list \<Rightarrow> MembershipRequest \<times> world
     \<Rightarrow> ((exn + unit) \<times> MembershipRequest \<times> world) option"
where
  "poll_loop mgr timeout interval start [] st = None"
| "poll_loop mgr timeout interval start (now # later) st =
     (if now - start < timeout
      then (case is_ready mgr st of
              (Inl e, st') \<Rightarrow> Some (Inl e, st')
            | (Inr True, st') \<Rightarrow> Some (Inr (), st')
            | (Inr False, self', w') \<Rightarrow>
                (case sleep interval w' of
                   Inl e \<Rightarrow> Some (Inl e, self', w')
                 | Inr w'' \<Rightarrow> poll_loop mgr timeout interval start later (self', w'')))
      else Some (Inr (), st))"

definition poll ::
  "manager \<Rightarrow> int \<Rightarrow> int \<Rightarrow> int list \<Rightarrow> MembershipRequest \<times> world
     \<Rightarrow> ((exn + Results option) \<times> MembershipRequest \<times> world) option"
where
  "poll mgr timeout interval clock st =
     (case clock of
        [] \<Rightarrow> None
      | start # later \<Rightarrow>
          (case poll_loop mgr timeout interval start later st of
             None \<Rightarrow> None
           | Some (Inl e, st') \<Rightarrow> Some (Inl e, st')
           | Some (Inr _, st') \<Rightarrow> Some (get (fst st'), st')))"

subsection \<open>The manager's check\<close>

text \<open>
  Modelled from the spec: \<open>Memberships.check\<close> is in \<open>groupy.managers\<close>, which is not
  among the sources; only its tests are. The transport's answer to the GET for a results
  id is a status code and the decoded \<open>members\<close> list of the body. Status 503 fails with
  \<open>ResultsNotReady\<close>, 404 with \<open>ResultsExpired\<close>, any 2xx returns the members list, and
  any other status is a generic request failure.
\<close>

record response =
  status :: nat
  body_members :: "dict list"

definition check :: "(string \<Rightarrow> response) \<Rightarrow> string \<Rightarrow> exn + dict list" where
  "check transport results_id =
     (let r = transport results_id in
      if status r = 503 then Inl (ResultsNotReady results_id)
      else if status r = 404 then Inl (ResultsExpired results_id)
      else if 200 \<le> status r \<and> status r < 300 then Inr (body_members r)
      else Inl (RequestError results_id))"

section \<open>Notions used to state the properties\<close>

text \<open>
  The spec's three states, read off the fields: a request is \<open>Pending\<close> until
  \<open>_is_ready\<close> is set, then \<open>Expired\<close> if an expired exception is recorded and
  \<open>Ready\<close> otherwise.
\<close>

datatype phase = Pending | Ready | Expired

definition state :: "MembershipRequest \<Rightarrow> phase" where
  "state self =
     (if \<not> p_is_ready self then Pending
      else (case p_expired_exception self of None \<Rightarrow> Ready | Some _ \<Rightarrow> Expired))"

text \<open>
  A caller's sequence of public operations. Each one is run on the state the previous
  one left, whether it returned or raised; a \<open>poll\<close> whose clock readings run out has
  no resulting state.
\<close>

datatype op = IsReady | Get | Poll int int "int list"

fun step :: "manager \<Rightarrow> op \<Rightarrow> MembershipRequest \<times> world \<Rightarrow> (MembershipRequest \<times> world) option" where
  "step mgr IsReady st = Some (snd (is_ready mgr st))"
| "step mgr Get st = Some st"
| "step mgr (Poll timeout interval clock) st = map_option snd (poll mgr timeout interval clock st)"

fun run :: "manager \<Rightarrow> op list \<Rightarrow> MembershipRequest \<times> world \<Rightarrow> (MembershipRequest \<times> world) option" where
  "run mgr [] st = Some st"
| "run mgr (x # xs) st = (case step mgr x st of None \<Rightarrow> None | Some st' \<Rightarrow> run mgr xs st')"

text \<open>
  A \<open>poll\<close> reads the clock at least twice: once for \<open>start\<close> and once for the first
  evaluation of the loop condition. An operation is \<open>clocked\<close> when it is given that
  many readings.
\<close>

fun clocked :: "op \<Rightarrow> bool" where
  "clocked (Poll timeout interval clock) = (2 \<le> length clock)"
| "clocked _ = True"

text \<open>
  Reconciliation against the returned records \<open>S\<close>. \<open>returned S g\<close> is the record that
  the index holds for guid \<open>g\<close>: the last one of \<open>S\<close> bearing it. A request's guid is
  present when some returned record bears it; a returned record is requested when some
  request bears its guid. A member corresponds to a request when it is constructed from
  the record returned for the request's guid, without its \<open>guid\<close> field.
\<close>

fun returned :: "dict list \<Rightarrow> string \<Rightarrow> dict option" where
  "returned [] g = None"
| "returned (rec # S) g =
     (case returned S g of
        Some later \<Rightarrow> Some later
      | None \<Rightarrow> (if rec ''guid'' = Some g then Some rec else None))"

definition guid_present :: "dict list \<Rightarrow> dict \<Rightarrow> bool" where
  "guid_present S request =
     (case request ''guid'' of
        None \<Rightarrow> False
      | Some g \<Rightarrow> Some g \<in> set (map (\<lambda>rec. rec ''guid'') S))"

definition requested :: "dict list \<Rightarrow> dict \<Rightarrow> bool" where
  "requested R rec =
     (case rec ''guid'' of
        None \<Rightarrow> False
      | Some g \<Rightarrow> Some g \<in> set (map (\<lambda>request. request ''guid'') R))"

definition corresponds :: "dict list \<Rightarrow> Member \<Rightarrow> dict \<Rightarrow> bool" where
  "corresponds S member request =
     (case request ''guid'' of
        None \<Rightarrow> False
      | Some g \<Rightarrow>
          (case returned S g of
             None \<Rightarrow> False
           | Some rec \<Rightarrow> Member_init (rec(''guid'' := None)) = Inr member))"

text \<open>The same two notions for the index while the loop runs.\<close>

definition indexed :: "(string \<rightharpoonup> dict) \<Rightarrow> dict \<Rightarrow> bool" where
  "indexed data request = (case request ''guid'' of None \<Rightarrow> False | Some g \<Rightarrow> data g \<noteq> None)"

definition built_from :: "(string \<rightharpoonup> dict) \<Rightarrow> Member \<Rightarrow> dict \<Rightarrow> bool" where
  "built_from data member request =
     (\<exists>g rec. request ''guid'' = Some g \<and> data g = Some rec \<and> rec ''guid'' \<noteq> None
        \<and> Member_init (rec(''guid'' := None)) = Inr member)"

section \<open>Properties\<close>

subsection \<open>Reconciliation\<close>

lemma indexed_upd: "data g \<noteq> None \<Longrightarrow> indexed (data(g \<mapsto> x)) = indexed data"
  by (auto simp: indexed_def fun_eq_iff split: option.splits)

lemma built_from_upd:
  "built_from (data(g \<mapsto> x)) m r \<Longrightarrow> x ''guid'' = None \<Longrightarrow> built_from data m r"
  by (auto simp: built_from_def split: if_splits)

lemma process_requests_Inr:
  "process_requests data R ms fs = Inr (ms', fs') \<Longrightarrow>
     fs' = fs @ filter (\<lambda>r. \<not> indexed data r) R \<and>
     (\<exists>new. ms' = ms @ new \<and> list_all2 (built_from data) new (filter (indexed data) R))"
proof (induction R arbitrary: data ms fs)
  case Nil
  then show ?case by simp
next
  case (Cons r R)
  show ?case
  proof (cases "r ''guid''")
    case None
    with Cons.prems have "process_requests data R ms (fs @ [r]) = Inr (ms', fs')" by simp
    from Cons.IH[OF this] None show ?thesis by (simp add: indexed_def)
  next
    case (Some g)
    note g = this
    show ?thesis
    proof (cases "data g")
      case None
      with Cons.prems g have "process_requests data R ms (fs @ [r]) = Inr (ms', fs')" by simp
      from Cons.IH[OF this] None g show ?thesis by (simp add: indexed_def)
    next
      case (Some rec)
      note rec = this
      from Cons.prems g rec obtain m where
        guid: "rec ''guid'' \<noteq> None" and
        m: "Member_init (rec(''guid'' := None)) = Inr m" and
        run: "process_requests (data(g \<mapsto> rec(''guid'' := None))) R (ms @ [m]) fs = Inr (ms', fs')"
        by (auto simp: Let_def split: option.splits sum.splits)
      let ?d = "data(g \<mapsto> rec(''guid'' := None))"
      have ix: "indexed ?d = indexed data" using rec by (simp add: indexed_upd)
      from Cons.IH[OF run] obtain new where
        fs': "fs' = fs @ filter (\<lambda>r. \<not> indexed ?d r) R" and
        ms': "ms' = (ms @ [m]) @ new" and
        all: "list_all2 (built_from ?d) new (filter (indexed ?d) R)"
        by blast
      have all': "list_all2 (built_from data) new (filter (indexed data) R)"
        using all unfolding ix
        by (rule list_all2_mono) (erule built_from_upd, simp)
      have r_ix: "indexed data r" using g rec by (simp add: indexed_def)
      have r_b: "built_from data m r" using g rec guid m by (auto simp: built_from_def)
      show ?thesis using fs' ms' all' r_ix r_b unfolding ix by simp
    qed
  qed
qed

lemma returned_None_iff: "returned S g = None \<longleftrightarrow> Some g \<notin> set (map (\<lambda>rec. rec ''guid'') S)"
  by (induction S) (auto split: option.splits)

lemma returned_guid: "returned S g = Some rec \<Longrightarrow> rec ''guid'' = Some g \<and> rec \<in> set S"
  by (induction S) (auto split: option.splits if_splits)

lemma index_by_guid_lookup:
  "index_by_guid S d0 = Inr d \<Longrightarrow>
     d g = (case returned S g of None \<Rightarrow> d0 g | Some rec \<Rightarrow> Some rec)"
proof (induction S arbitrary: d0)
  case Nil
  then show ?case by simp
next
  case (Cons rec S)
  then show ?case
    by (auto split: option.splits)
qed

lemma index_by_guid_total:
  "\<forall>rec\<in>set S. rec ''guid'' \<noteq> None \<Longrightarrow> \<exists>d. index_by_guid S d0 = Inr d"
  by (induction S arbitrary: d0) auto

lemma index_by_guid_empty:
  "index_by_guid S Map.empty = Inr d \<Longrightarrow> d = returned S"
  by (rule ext) (simp add: index_by_guid_lookup split: option.splits)

lemma indexed_returned: "indexed (returned S) = guid_present S"
  by (auto simp: fun_eq_iff indexed_def guid_present_def returned_None_iff split: option.splits)

lemma built_from_returned: "built_from (returned S) m r \<Longrightarrow> corresponds S m r"
  by (auto simp: built_from_def corresponds_def)

lemma process_requests_cong:
  assumes "\<And>r g. r \<in> set R \<Longrightarrow> r ''guid'' = Some g \<Longrightarrow> data g = data' g"
  shows "process_requests data R ms fs = process_requests data' R ms fs"
  using assms
proof (induction R arbitrary: data data' ms fs)
  case Nil
  show ?case by simp
next
  case (Cons r R)
  have tail: "\<And>r' g. r' \<in> set R \<Longrightarrow> r' ''guid'' = Some g \<Longrightarrow> data g = data' g"
  proof -
    fix r' g assume "r' \<in> set R" and g: "r' ''guid'' = Some g"
    then have "r' \<in> set (r # R)" by simp
    then show "data g = data' g" using g by (rule Cons.prems)
  qed
  show ?case
  proof (cases "r ''guid''")
    case None
    have "process_requests data R ms (fs @ [r]) = process_requests data' R ms (fs @ [r])"
      using tail by (rule Cons.IH)
    then show ?thesis using None by simp
  next
    case (Some g)
    have "r \<in> set (r # R)" by simp
    then have same: "data g = data' g" using Some by (rule Cons.prems)
    show ?thesis
    proof (cases "data g")
      case None
      have "process_requests data R ms (fs @ [r]) = process_requests data' R ms (fs @ [r])"
        using tail by (rule Cons.IH)
      then show ?thesis using Some None same by simp
    next
      case (Some rec)
      note rec = this
      have rec': "data' g = Some rec" using same rec by simp
      have upd: "process_requests (data(g \<mapsto> x)) R ms' fs = process_requests (data'(g \<mapsto> x)) R ms' fs"
        for x ms'
      proof (rule Cons.IH)
        fix r' g' assume "r' \<in> set R" "r' ''guid'' = Some g'"
        then have "data g' = data' g'" by (rule tail)
        then show "(data(g \<mapsto> x)) g' = (data'(g \<mapsto> x)) g'" by simp
      qed
      show ?thesis
        using \<open>r ''guid'' = Some g\<close> rec rec' upd
        by (simp add: Let_def split: option.splits sum.splits)
    qed
  qed
qed

lemma returned_filter:
  assumes "\<And>rec. rec ''guid'' = Some g \<Longrightarrow> Q rec"
  shows "returned (filter Q S) g = returned S g"
proof (induction S)
  case Nil
  show ?case by simp
next
  case (Cons rec S)
  show ?case
  proof (cases "rec ''guid'' = Some g")
    case True
    then have "Q rec" by (rule assms)
    then show ?thesis using Cons.IH by simp
  next
    case False
    then show ?thesis using Cons.IH by (simp split: option.splits)
  qed
qed

lemma filter_bearing:
  "\<forall>rec\<in>set S. rec ''guid'' \<noteq> None \<Longrightarrow> \<forall>rec\<in>set (filter Q S). rec ''guid'' \<noteq> None"
  by simp

lemma process_new_members_returned:
  assumes "\<forall>rec\<in>set S. rec ''guid'' \<noteq> None"
  shows "process_new_members self S =
     (case process_requests (returned S) (p_requests self) [] [] of
        Inl e \<Rightarrow> Inl e
      | Inr (ms, fs) \<Rightarrow> Inr (self\<lparr>results := Some \<lparr>members = ms, failures = fs\<rparr>\<rparr>))"
proof -
  from index_by_guid_total[OF assms] obtain d where d: "index_by_guid S Map.empty = Inr d"
    by blast
  then have "d = returned S" by (rule index_by_guid_empty)
  with d show ?thesis by (simp add: process_new_members_def)
qed

text \<open>
  What reconciliation stores when it returns, for returned records that each bear a
  guid: a pair (members, failures) whose lengths add up to the number of requests; the
  members correspond, one to one and in request order, to the requests whose guid is
  present among the returned records; the failures are exactly the other requests,
  unchanged and in request order. Returned records whose guid no request bears have no
  influence on the outcome.
\<close>

lemma process_new_members_when_returns:
  assumes "\<forall>rec\<in>set S. rec ''guid'' \<noteq> None"
  shows "(\<forall>self'. process_new_members self S = Inr self' \<longrightarrow>
            (\<exists>ms fs. self' = self\<lparr>results := Some \<lparr>members = ms, failures = fs\<rparr>\<rparr>
               \<and> length ms + length fs = length (p_requests self)
               \<and> list_all2 (corresponds S) ms (filter (guid_present S) (p_requests self))
               \<and> fs = filter (\<lambda>r. \<not> guid_present S r) (p_requests self)))
       \<and> process_new_members self (filter (requested (p_requests self)) S)
            = process_new_members self S"
proof (intro conjI allI impI)
  fix self'
  assume run: "process_new_members self S = Inr self'"
  let ?R = "p_requests self"
  from run obtain ms fs where
    loop: "process_requests (returned S) ?R [] [] = Inr (ms, fs)" and
    self': "self' = self\<lparr>results := Some \<lparr>members = ms, failures = fs\<rparr>\<rparr>"
    unfolding process_new_members_returned[OF assms]
    by (auto split: sum.splits)
  from process_requests_Inr[OF loop] have
    fs: "fs = filter (\<lambda>r. \<not> guid_present S r) ?R" and
    ms: "list_all2 (built_from (returned S)) ms (filter (guid_present S) ?R)"
    by (simp_all add: indexed_returned)
  have ms': "list_all2 (corresponds S) ms (filter (guid_present S) ?R)"
    using ms by (rule list_all2_mono) (rule built_from_returned)
  have "length ms = length (filter (guid_present S) ?R)"
    using ms by (rule list_all2_lengthD)
  then have len: "length ms + length fs = length ?R"
    unfolding fs by (simp add: sum_length_filter_compl)
  show "\<exists>ms fs. self' = self\<lparr>results := Some \<lparr>members = ms, failures = fs\<rparr>\<rparr>
               \<and> length ms + length fs = length (p_requests self)
               \<and> list_all2 (corresponds S) ms (filter (guid_present S) (p_requests self))
               \<and> fs = filter (\<lambda>r. \<not> guid_present S r) (p_requests self)"
    using self' len ms' fs by blast
next
  let ?Q = "requested (p_requests self)"
  have bearing: "\<forall>rec\<in>set (filter ?Q S). rec ''guid'' \<noteq> None"
    using assms by (rule filter_bearing)
  have "process_requests (returned (filter ?Q S)) (p_requests self) [] []
          = process_requests (returned S) (p_requests self) [] []"
  proof (rule process_requests_cong)
    fix r g assume r: "r \<in> set (p_requests self)" and g: "r ''guid'' = Some g"
    have "Some g \<in> set (map (\<lambda>request. request ''guid'') (p_requests self))"
      using r g by (simp add: image_iff) (metis g)
    then have "\<And>rec. rec ''guid'' = Some g \<Longrightarrow> ?Q rec"
      by (simp add: requested_def)
    then show "returned (filter ?Q S) g = returned S g" by (rule returned_filter)
  qed
  then show "process_new_members self (filter ?Q S) = process_new_members self S"
    unfolding process_new_members_returned[OF assms] process_new_members_returned[OF bearing]
    by simp
qed

text \<open>
  The constructor call in the loop passes no group id. A returned record without a
  \<open>group_id\<close> field therefore cannot become a Member, and reconciliation raises as soon
  as one request's guid is present among such records.
\<close>

lemma Member_init_needs_group_id: "kwargs ''group_id'' = None \<Longrightarrow> Member_init kwargs \<noteq> Inr member"
  by (simp add: Member_init_def split: option.splits)

lemma list_all2_right_ex: "list_all2 P xs ys \<Longrightarrow> y \<in> set ys \<Longrightarrow> \<exists>x. P x y"
  by (induction rule: list_all2_induct) auto

lemma process_new_members_needs_group_id:
  assumes bearing: "\<forall>rec\<in>set S. rec ''guid'' \<noteq> None"
    and no_group: "\<forall>rec\<in>set S. rec ''group_id'' = None"
    and matched: "r \<in> set (p_requests self)" "guid_present S r"
  shows "\<exists>e. process_new_members self S = Inl e"
proof (cases "process_new_members self S")
  case (Inl e)
  then show ?thesis by blast
next
  case (Inr self')
  with process_new_members_when_returns[OF bearing, of self] obtain ms where
    ms: "list_all2 (corresponds S) ms (filter (guid_present S) (p_requests self))"
    by blast
  from matched have "r \<in> set (filter (guid_present S) (p_requests self))" by simp
  with ms obtain m where "corresponds S m r"
    by (blast dest: list_all2_right_ex)
  then obtain g rec where rec: "returned S g = Some rec"
    and m: "Member_init (rec(''guid'' := None)) = Inr m"
    by (auto simp: corresponds_def split: option.splits)
  from rec have "rec \<in> set S" by (simp add: returned_guid)
  with no_group have "(rec(''guid'' := None)) ''group_id'' = None" by simp
  from Member_init_needs_group_id[of "rec(''guid'' := None)" m, OF this] m show ?thesis by blast
qed

text \<open>
  C1. The partition is not produced for every batch and every sequence of returned
  records bearing a guid. In Scenario B of the spec the requests are \<open>{guid: g1}\<close> and
  \<open>{guid: g2}\<close> and the server returns \<open>{guid: g1, id: m1, user_id: u1}\<close>; the claim
  gives one succeeded member and the failed request \<open>{guid: g2}\<close>, whereas
  \<open>_process_new_members\<close> raises \<open>TypeError\<close> at the first request, because
  \<open>Member(self.manager, **member_data)\<close> lacks the \<open>group_id\<close> argument of
  \<open>Member.__init__\<close>, and stores no results.
\<close>

theorem scenario_B_raises:
  "process_new_members
     (MembershipRequest_init [[''guid'' \<mapsto> ''g1''], [''guid'' \<mapsto> ''g2'']] [''results_id'' \<mapsto> ''r1''])
     [[''guid'' \<mapsto> ''g1'', ''id'' \<mapsto> ''m1'', ''user_id'' \<mapsto> ''u1'']]
     = Inl (TypeError ''__init__() missing 1 required positional argument: group_id'')"
  by (simp add: process_new_members_def MembershipRequest_init_def Member_init_def
        getattr_def Let_def)

subsection \<open>Readiness\<close>

lemma state_Pending_iff: "state self = Pending \<longleftrightarrow> \<not> p_is_ready self"
  by (simp add: state_def split: option.splits)

lemma check_if_ready_not_ready:
  "mr_data self ''results_id'' = Some rid \<Longrightarrow> mgr (length (calls w)) rid = Inl (ResultsNotReady x) \<Longrightarrow>
   check_if_ready mgr (self, w) =
     (Inr (), self\<lparr>p_is_ready := False, p_not_ready_exception := Some (ResultsNotReady x)\<rparr>,
      w\<lparr>calls := calls w @ [rid]\<rparr>)"
  by (simp add: check_if_ready_def getattr_def Let_def)

lemma check_if_ready_expired:
  "mr_data self ''results_id'' = Some rid \<Longrightarrow> mgr (length (calls w)) rid = Inl (ResultsExpired x) \<Longrightarrow>
   check_if_ready mgr (self, w) =
     (Inr (), self\<lparr>p_is_ready := True, p_expired_exception := Some (ResultsExpired x)\<rparr>,
      w\<lparr>calls := calls w @ [rid]\<rparr>)"
  by (simp add: check_if_ready_def getattr_def Let_def)

lemma is_ready_already: "p_is_ready self \<Longrightarrow> is_ready mgr (self, w) = (Inr True, self, w)"
  by (simp add: is_ready_def)

lemma is_ready_not_ready:
  "\<not> p_is_ready self \<Longrightarrow> mr_data self ''results_id'' = Some rid \<Longrightarrow>
   mgr (length (calls w)) rid = Inl (ResultsNotReady x) \<Longrightarrow>
   is_ready mgr (self, w) =
     (Inr False, self\<lparr>p_is_ready := False, p_not_ready_exception := Some (ResultsNotReady x)\<rparr>,
      w\<lparr>calls := calls w @ [rid]\<rparr>)"
  by (simp add: is_ready_def check_if_ready_not_ready)

lemma is_ready_expired:
  "\<not> p_is_ready self \<Longrightarrow> mr_data self ''results_id'' = Some rid \<Longrightarrow>
   mgr (length (calls w)) rid = Inl (ResultsExpired x) \<Longrightarrow>
   is_ready mgr (self, w) =
     (Inr True, self\<lparr>p_is_ready := True, p_expired_exception := Some (ResultsExpired x)\<rparr>,
      w\<lparr>calls := calls w @ [rid]\<rparr>)"
  by (simp add: is_ready_def check_if_ready_expired)

text \<open>
  C3. When the check made by \<open>is_ready\<close> on a pending request raises \<open>ResultsExpired\<close>,
  \<open>is_ready\<close> returns \<open>True\<close> after exactly that one check, the request is \<open>Expired\<close>
  with the exception recorded, and \<open>get\<close> raises that exception.
\<close>

theorem is_ready_results_expired:
  assumes "state self = Pending"
    and "mr_data self ''results_id'' = Some rid"
    and "mgr (length (calls w)) rid = Inl (ResultsExpired x)"
  shows "\<exists>self' w'. is_ready mgr (self, w) = (Inr True, self', w')
           \<and> state self' = Expired
           \<and> p_expired_exception self' = Some (ResultsExpired x)
           \<and> calls w' = calls w @ [rid]
           \<and> get self' = Inl (ResultsExpired x)"
proof -
  from assms(1) have "\<not> p_is_ready self" by (simp add: state_Pending_iff)
  from is_ready_expired[where mgr = mgr and w = w, OF this assms(2,3)] show ?thesis
    by (simp add: state_def get_def)
qed

theorem is_ready_results_expired_witness:
  "\<exists>self' w'.
     is_ready (\<lambda>n rid. Inl (ResultsExpired ''404''))
       (MembershipRequest_init [[''guid'' \<mapsto> ''g1'']] [''results_id'' \<mapsto> ''r1''],
        \<lparr>calls = [], naps = []\<rparr>) = (Inr True, self', w')
     \<and> state self' = Expired \<and> get self' = Inl (ResultsExpired ''404'')"
proof -
  let ?self = "MembershipRequest_init [[''guid'' \<mapsto> ''g1'']] [''results_id'' \<mapsto> ''r1'']"
  have a: "state ?self = Pending" by (simp add: state_def MembershipRequest_init_def)
  have b: "mr_data ?self ''results_id'' = Some ''r1''" by (simp add: MembershipRequest_init_def)
  have c: "(\<lambda>n rid. Inl (ResultsExpired ''404'') :: exn + dict list)
             (length (calls \<lparr>calls = [], naps = []\<rparr>)) ''r1'' = Inl (ResultsExpired ''404'')"
    by simp
  from is_ready_results_expired
         [where mgr = "\<lambda>n rid. Inl (ResultsExpired ''404'')" and w = "\<lparr>calls = [], naps = []\<rparr>",
          OF a b c]
  show ?thesis by blast
qed

text \<open>
  C9. A freshly constructed request, on which no check has been made, has neither a
  not-ready nor an expired exception recorded: \<open>get\<close> raises nothing and returns the
  \<open>results\<close> attribute, which is still \<open>None\<close>.
\<close>

theorem get_fresh_request:
  "get (MembershipRequest_init requests data) = Inr None"
  by (simp add: get_def MembershipRequest_init_def)

lemma run_IsReady_not_ready:
  assumes "\<forall>k. \<exists>x. mgr k rid = Inl (ResultsNotReady x)"
    and "\<not> p_is_ready self"
    and "mr_data self ''results_id'' = Some rid"
  shows "\<exists>self' w'. run mgr (replicate n IsReady) (self, w) = Some (self', w')
           \<and> \<not> p_is_ready self' \<and> mr_data self' = mr_data self
           \<and> p_expired_exception self' = p_expired_exception self
           \<and> calls w' = calls w @ replicate n rid \<and> naps w' = naps w
           \<and> (0 < n \<longrightarrow> (\<exists>x. p_not_ready_exception self' = Some (ResultsNotReady x)))"
  using assms(2,3)
proof (induction n arbitrary: self w)
  case 0
  then show ?case by simp
next
  case (Suc n)
  from assms(1) obtain x where x: "mgr (length (calls w)) rid = Inl (ResultsNotReady x)"
    by blast
  let ?s = "self\<lparr>p_is_ready := False, p_not_ready_exception := Some (ResultsNotReady x)\<rparr>"
  let ?w = "w\<lparr>calls := calls w @ [rid]\<rparr>"
  have step: "is_ready mgr (self, w) = (Inr False, ?s, ?w)"
    using Suc.prems x by (rule is_ready_not_ready[where mgr = mgr and w = w])
  have a: "\<not> p_is_ready ?s" by simp
  have b: "mr_data ?s ''results_id'' = Some rid" using Suc.prems(2) by simp
  from Suc.IH[OF a b, of ?w] obtain self' w' where
    r: "run mgr (replicate n IsReady) (?s, ?w) = Some (self', w')" and
    p: "\<not> p_is_ready self'" "mr_data self' = mr_data ?s"
       "p_expired_exception self' = p_expired_exception ?s"
       "calls w' = calls ?w @ replicate n rid" "naps w' = naps ?w" and
    q: "0 < n \<longrightarrow> (\<exists>x. p_not_ready_exception self' = Some (ResultsNotReady x))"
    by blast
  have nr: "\<exists>x. p_not_ready_exception self' = Some (ResultsNotReady x)"
  proof (cases n)
    case 0
    with r have "self' = ?s" by simp
    then show ?thesis by simp
  next
    case (Suc m)
    with q show ?thesis by simp
  qed
  have "run mgr (replicate (Suc n) IsReady) (self, w) = Some (self', w')"
    using step r by simp
  moreover have "calls w' = calls w @ replicate (Suc n) rid"
    using p(4) by (simp add: replicate_app_Cons_same)
  ultimately show ?case using p nr by simp
qed

text \<open>
  C7. On a pending request, a call of \<open>is_ready\<close> whose check raises \<open>ResultsNotReady\<close>
  makes exactly that one call of \<open>check\<close>, returns \<open>False\<close>, records the exception and
  leaves the request \<open>Pending\<close>. While every check raises \<open>ResultsNotReady\<close>, any number
  \<open>n\<close> of calls of \<open>is_ready\<close> in a row makes \<open>n\<close> checks and leaves the request
  \<open>Pending\<close>.
\<close>

theorem is_ready_while_not_ready:
  assumes "state self = Pending"
    and "mr_data self ''results_id'' = Some rid"
  shows "(mgr (length (calls w)) rid = Inl (ResultsNotReady x) \<longrightarrow>
            (\<exists>self' w'. is_ready mgr (self, w) = (Inr False, self', w')
               \<and> calls w' = calls w @ [rid]
               \<and> p_not_ready_exception self' = Some (ResultsNotReady x)
               \<and> state self' = Pending))
       \<and> ((\<forall>k. \<exists>x. mgr k rid = Inl (ResultsNotReady x)) \<longrightarrow>
            (\<exists>self' w'. run mgr (replicate n IsReady) (self, w) = Some (self', w')
               \<and> calls w' = calls w @ replicate n rid
               \<and> state self' = Pending))"
proof (intro conjI impI)
  from assms(1) have nr: "\<not> p_is_ready self" by (simp add: state_Pending_iff)
  {
    assume "mgr (length (calls w)) rid = Inl (ResultsNotReady x)"
    from is_ready_not_ready[where mgr = mgr and w = w, OF nr assms(2) this]
    show "\<exists>self' w'. is_ready mgr (self, w) = (Inr False, self', w')
               \<and> calls w' = calls w @ [rid]
               \<and> p_not_ready_exception self' = Some (ResultsNotReady x)
               \<and> state self' = Pending"
      by (simp add: state_Pending_iff)
  }
  {
    assume "\<forall>k. \<exists>x. mgr k rid = Inl (ResultsNotReady x)"
    from run_IsReady_not_ready[where mgr = mgr and rid = rid and self = self and n = n and w = w, OF this nr assms(2)]
    show "\<exists>self' w'. run mgr (replicate n IsReady) (self, w) = Some (self', w')
               \<and> calls w' = calls w @ replicate n rid
               \<and> state self' = Pending"
      by (auto simp: state_Pending_iff)
  }
qed

theorem is_ready_while_not_ready_witness:
  "(\<exists>self' w'.
      is_ready (\<lambda>n rid. Inl (ResultsNotReady ''503''))
        (MembershipRequest_init [[''guid'' \<mapsto> ''g1'']] [''results_id'' \<mapsto> ''r1''],
         \<lparr>calls = [], naps = []\<rparr>) = (Inr False, self', w')
      \<and> calls w' = [''r1''] \<and> state self' = Pending)
   \<and> (\<exists>self' w'.
      run (\<lambda>n rid. Inl (ResultsNotReady ''503'')) (replicate 3 IsReady)
        (MembershipRequest_init [[''guid'' \<mapsto> ''g1'']] [''results_id'' \<mapsto> ''r1''],
         \<lparr>calls = [], naps = []\<rparr>) = Some (self', w')
      \<and> calls w' = [''r1'', ''r1'', ''r1''] \<and> state self' = Pending)"
proof -
  let ?self = "MembershipRequest_init [[''guid'' \<mapsto> ''g1'']] [''results_id'' \<mapsto> ''r1'']"
  let ?mgr = "\<lambda>n rid. Inl (ResultsNotReady ''503'') :: exn + dict list"
  let ?w = "\<lparr>calls = [], naps = []\<rparr>"
  have a: "state ?self = Pending" by (simp add: state_def MembershipRequest_init_def)
  have b: "mr_data ?self ''results_id'' = Some ''r1''" by (simp add: MembershipRequest_init_def)
  have c: "?mgr (length (calls ?w)) ''r1'' = Inl (ResultsNotReady ''503'')" by simp
  have d: "\<forall>k. \<exists>x. ?mgr k ''r1'' = Inl (ResultsNotReady x)" by simp
  note T = is_ready_while_not_ready[where mgr = ?mgr and w = ?w and x = "''503''" and n = 3, OF a b]
  have r3: "replicate 3 ''r1'' = [''r1'', ''r1'', ''r1'']" by (simp add: numeral_3_eq_3)
  from T c d have
    "(\<exists>self' w'. is_ready ?mgr (?self, ?w) = (Inr False, self', w')
               \<and> calls w' = calls ?w @ [''r1'']
               \<and> p_not_ready_exception self' = Some (ResultsNotReady ''503'')
               \<and> state self' = Pending)"
    and "(\<exists>self' w'. run ?mgr (replicate 3 IsReady) (?self, ?w) = Some (self', w')
               \<and> calls w' = calls ?w @ replicate 3 ''r1''
               \<and> state self' = Pending)"
    by blast+
  then show ?thesis unfolding r3 by (simp only: world.simps append_Nil) blast
qed

text \<open>
  C2. Scenario A of the spec, evaluated: one requested record \<open>{guid: g1, nickname:
  Ann}\<close>, results id \<open>r1\<close>; the first check raises \<open>ResultsNotReady\<close>, every later one
  returns \<open>[{guid: g1, id: m1, user_id: u1}]\<close>. The first \<open>is_ready\<close> returns \<open>False\<close>.
  The second does not return \<open>True\<close>: it raises the \<open>TypeError\<close> of the call
  \<open>Member(self.manager, **member_data)\<close>, which lacks \<open>group_id\<close>, after \<open>_is_ready\<close>
  was set and \<open>_not_ready_exception\<close> cleared. From then on \<open>is_ready\<close> returns \<open>True\<close>
  without a further check and \<open>get\<close> returns \<open>None\<close>, not the pair of the scenario.
\<close>

theorem scenario_A_raises:
  "(let mgr = (\<lambda>n rid. if n = 0 then Inl (ResultsNotReady ''503'')
                         else Inr [[''guid'' \<mapsto> ''g1'', ''id'' \<mapsto> ''m1'', ''user_id'' \<mapsto> ''u1'']]);
        st0 = (MembershipRequest_init [[''guid'' \<mapsto> ''g1'', ''nickname'' \<mapsto> ''Ann'']]
                 [''results_id'' \<mapsto> ''r1''],
               \<lparr>calls = [], naps = []\<rparr>);
        st1 = snd (is_ready mgr st0);
        st2 = snd (is_ready mgr st1)
    in fst (is_ready mgr st0) = Inr False
       \<and> fst (is_ready mgr st1)
           = Inl (TypeError ''__init__() missing 1 required positional argument: group_id'')
       \<and> calls (snd st2) = [''r1'', ''r1'']
       \<and> fst (is_ready mgr st2) = Inr True
       \<and> get (fst st2) = Inr None)"
  by (simp add: Let_def is_ready_def check_if_ready_def getattr_def process_new_members_def
        Member_init_def MembershipRequest_init_def get_def)

subsection \<open>The manager's check\<close>

text \<open>
  C5. \<open>check\<close> maps the status of the transport's answer to one of three results:
  503 raises \<open>ResultsNotReady\<close>, 404 raises \<open>ResultsExpired\<close>, a status from 200 to 299
  returns the \<open>members\<close> list of the body; any other status raises the unclassified
  request error.
\<close>

theorem check_status_mapping:
  "(status (transport rid) = 503 \<longrightarrow> check transport rid = Inl (ResultsNotReady rid))
   \<and> (status (transport rid) = 404 \<longrightarrow> check transport rid = Inl (ResultsExpired rid))
   \<and> (200 \<le> status (transport rid) \<and> status (transport rid) < 300 \<longrightarrow>
        check transport rid = Inr (body_members (transport rid)))
   \<and> (status (transport rid) \<noteq> 503 \<and> status (transport rid) \<noteq> 404
        \<and> (status (transport rid) < 200 \<or> 300 \<le> status (transport rid)) \<longrightarrow>
        check transport rid = Inl (RequestError rid))"
  by (auto simp: check_def Let_def)

theorem check_status_mapping_witness:
  "check (\<lambda>rid. \<lparr>status = 503, body_members = []\<rparr>) ''bar'' = Inl (ResultsNotReady ''bar'')
   \<and> check (\<lambda>rid. \<lparr>status = 404, body_members = []\<rparr>) ''bar'' = Inl (ResultsExpired ''bar'')
   \<and> check (\<lambda>rid. \<lparr>status = 200, body_members = [[''baz'' \<mapsto> ''qux'']]\<rparr>) ''bar''
        = Inr [[''baz'' \<mapsto> ''qux'']]
   \<and> check (\<lambda>rid. \<lparr>status = 500, body_members = []\<rparr>) ''bar'' = Inl (RequestError ''bar'')"
  using check_status_mapping[of "\<lambda>rid. \<lparr>status = 503, body_members = []\<rparr>" "''bar''"]
        check_status_mapping[of "\<lambda>rid. \<lparr>status = 404, body_members = []\<rparr>" "''bar''"]
        check_status_mapping[of "\<lambda>rid. \<lparr>status = 200, body_members = [[''baz'' \<mapsto> ''qux'']]\<rparr>" "''bar''"]
        check_status_mapping[of "\<lambda>rid. \<lparr>status = 500, body_members = []\<rparr>" "''bar''"]
  by simp

subsection \<open>The representation of a member\<close>

text \<open>
  C10. \<open>Member.__repr__\<close> reads \<open>user_id\<close> and \<open>nickname\<close>, and never \<open>nicknack\<close>:
  the representation does not depend on what the data holds under \<open>nicknack\<close>; with
  \<open>user_id\<close> present it raises \<open>AttributeError\<close> for \<open>nickname\<close> when that field is
  absent, and renders both fields when it is present.
\<close>

theorem Member_repr_reads_nickname:
  "Member_repr py_repr (self\<lparr>m_data := (m_data self)(''nicknack'' := v)\<rparr>) = Member_repr py_repr self
   \<and> (m_data self ''user_id'' = Some u \<and> m_data self ''nickname'' = None \<longrightarrow>
        Member_repr py_repr self = Inl (AttributeError ''Member'' ''nickname''))
   \<and> (m_data self ''user_id'' = Some u \<and> m_data self ''nickname'' = Some n \<longrightarrow>
        Member_repr py_repr self
          = Inr (''<Member(user_id='' @ py_repr u @ '', nickname='' @ py_repr n @ '')>''))"
  by (simp add: Member_repr_def getattr_def split: option.splits)

theorem Member_repr_reads_nickname_witness:
  "Member_repr (\<lambda>s. [CHR 0x27] @ s @ [CHR 0x27])
     \<lparr>m_data = [''id'' \<mapsto> ''foo'', ''user_id'' \<mapsto> ''baz'', ''nickname'' \<mapsto> ''nick''],
      m_messages = ''baz'', m_memberships = ''bar''\<rparr>
     = Inr (''<Member(user_id='' @ [CHR 0x27] @ ''baz'' @ [CHR 0x27] @ '', nickname=''
            @ [CHR 0x27] @ ''nick'' @ [CHR 0x27] @ '')>'')"
  using Member_repr_reads_nickname
    [of "\<lambda>s. [CHR 0x27] @ s @ [CHR 0x27]"
        "\<lparr>m_data = [''id'' \<mapsto> ''foo'', ''user_id'' \<mapsto> ''baz'', ''nickname'' \<mapsto> ''nick''],
          m_messages = ''baz'', m_memberships = ''bar''\<rparr>" _ "''baz''" "''nick''"]
  by simp

text \<open>
  The member data of the tests (\<open>get_fake_member_data\<close>) is where \<open>nicknack\<close> occurs:
  a \<open>Member\<close> built from it has no \<open>nickname\<close>, so its representation raises
  \<open>AttributeError\<close> for \<open>nickname\<close> instead of rendering \<open>nick\<close>.
\<close>

theorem Member_repr_nicknack_counterexample:
  "Member_init [''id'' \<mapsto> ''foo'', ''group_id'' \<mapsto> ''bar'', ''user_id'' \<mapsto> ''baz'', ''nicknack'' \<mapsto> ''nick'']
     = Inr \<lparr>m_data = [''id'' \<mapsto> ''foo'', ''group_id'' \<mapsto> ''bar'', ''user_id'' \<mapsto> ''baz'',
                      ''nicknack'' \<mapsto> ''nick''](''group_id'' := None),
            m_messages = ''baz'', m_memberships = ''bar''\<rparr>
   \<and> Member_repr (\<lambda>s. s)
       \<lparr>m_data = [''id'' \<mapsto> ''foo'', ''group_id'' \<mapsto> ''bar'', ''user_id'' \<mapsto> ''baz'',
                  ''nicknack'' \<mapsto> ''nick''](''group_id'' := None),
        m_messages = ''baz'', m_memberships = ''bar''\<rparr>
     = Inl (AttributeError ''Member'' ''nickname'')"
  by (simp add: Member_init_def Member_repr_def getattr_def Let_def)

subsection \<open>No way back from \<open>Ready\<close> or \<open>Expired\<close>\<close>

lemma process_new_members_fields:
  "process_new_members self res = Inr self' \<Longrightarrow>
   p_is_ready self' = p_is_ready self \<and> p_expired_exception self' = p_expired_exception self
   \<and> p_not_ready_exception self' = p_not_ready_exception self \<and> mr_data self' = mr_data self
   \<and> p_requests self' = p_requests self"
  by (auto simp: process_new_members_def split: sum.splits prod.splits)

lemma poll_loop_ready:
  "p_is_ready self \<Longrightarrow>
   poll_loop mgr timeout interval start (now # later) (self, w) = Some (Inr (), self, w)"
  by (simp add: is_ready_already)

lemma poll_ready:
  "p_is_ready self \<Longrightarrow>
   poll mgr timeout interval (start # now # later) (self, w) = Some (get self, self, w)"
  by (simp add: poll_def is_ready_already)

lemma poll_ready_Some:
  "p_is_ready self \<Longrightarrow> poll mgr timeout interval clock (self, w) = Some (r, st') \<Longrightarrow>
   st' = (self, w) \<and> r = get self"
proof (cases clock)
  case Nil
  assume "poll mgr timeout interval clock (self, w) = Some (r, st')"
  with Nil show ?thesis by (simp add: poll_def)
next
  case (Cons start rest)
  assume a: "p_is_ready self" "poll mgr timeout interval clock (self, w) = Some (r, st')"
  show ?thesis
  proof (cases rest)
    case Nil
    with Cons a(2) show ?thesis by (simp add: poll_def)
  next
    case (Cons now later)
    with \<open>clock = start # rest\<close> a(2) poll_ready[OF a(1), of mgr timeout interval start now later w]
    show ?thesis by simp
  qed
qed

lemma step_ready:
  "p_is_ready self \<Longrightarrow> step mgr x (self, w) = Some st' \<Longrightarrow> st' = (self, w)"
proof (cases x)
  case IsReady
  assume "p_is_ready self" "step mgr x (self, w) = Some st'"
  with IsReady show ?thesis by (simp add: is_ready_already)
next
  case Get
  assume "step mgr x (self, w) = Some st'"
  with Get show ?thesis by simp
next
  case (Poll t i c)
  assume a: "p_is_ready self" "step mgr x (self, w) = Some st'"
  with Poll obtain r where "poll mgr t i c (self, w) = Some (r, st')" by auto
  from poll_ready_Some[OF a(1) this] show ?thesis by simp
qed

lemma step_ready_clocked:
  "p_is_ready self \<Longrightarrow> clocked x \<Longrightarrow> step mgr x (self, w) = Some (self, w)"
proof (cases x)
  case IsReady
  assume "p_is_ready self"
  with IsReady show ?thesis by (simp add: is_ready_already)
next
  case Get
  then show ?thesis by simp
next
  case (Poll t i c)
  assume a: "p_is_ready self" "clocked x"
  with Poll obtain s n l where "c = s # n # l"
    by (cases c; cases "tl c") auto
  with Poll a(1) show ?thesis by (simp add: poll_ready)
qed

lemma run_ready:
  "p_is_ready self \<Longrightarrow> run mgr ops (self, w) = Some st' \<Longrightarrow> st' = (self, w)"
proof (induction ops)
  case Nil
  then show ?case by simp
next
  case (Cons x xs)
  from Cons.prems(2) obtain st1 where s: "step mgr x (self, w) = Some st1"
    and r: "run mgr xs st1 = Some st'"
    by (auto split: option.splits)
  from step_ready[OF Cons.prems(1) s] have "st1 = (self, w)" .
  with r Cons.IH[OF Cons.prems(1)] show ?case by simp
qed

lemma run_ready_clocked:
  "p_is_ready self \<Longrightarrow> list_all clocked ops \<Longrightarrow> run mgr ops (self, w) = Some (self, w)"
  by (induction ops) (simp_all add: step_ready_clocked)

lemma check_if_ready_recorded:
  assumes "\<not> p_is_ready self" and "p_expired_exception self = None"
    and "check_if_ready mgr (self, w) = (r, self', w')"
  shows "p_expired_exception self' = None
         \<or> (p_is_ready self' \<and> (\<exists>x. p_expired_exception self' = Some (ResultsExpired x)))"
proof (cases "mr_data self ''results_id''")
  case None
  with assms show ?thesis by (simp add: check_if_ready_def getattr_def)
next
  case (Some rid)
  show ?thesis
  proof (cases "mgr (length (calls w)) rid")
    case (Inr res)
    show ?thesis
    proof (cases "process_new_members (self\<lparr>p_is_ready := True, p_not_ready_exception := None\<rparr>) res")
      case (Inl e)
      with Some Inr assms show ?thesis
        by (auto simp: check_if_ready_def getattr_def Let_def)
    next
      case (Inr self2)
      from process_new_members_fields[OF this] have "p_expired_exception self2 = None"
        using assms(2) by simp
      with Some \<open>mgr (length (calls w)) rid = Inr res\<close> Inr assms show ?thesis
        by (auto simp: check_if_ready_def getattr_def Let_def)
    qed
  next
    case (Inl e)
    with Some assms show ?thesis
      by (cases e) (auto simp: check_if_ready_def getattr_def Let_def)
  qed
qed

lemma is_ready_recorded:
  assumes "p_expired_exception self = None
           \<or> (p_is_ready self \<and> (\<exists>x. p_expired_exception self = Some (ResultsExpired x)))"
    and "is_ready mgr (self, w) = (r, self', w')"
  shows "p_expired_exception self' = None
         \<or> (p_is_ready self' \<and> (\<exists>x. p_expired_exception self' = Some (ResultsExpired x)))"
proof (cases "p_is_ready self")
  case True
  with assms show ?thesis by (simp add: is_ready_already)
next
  case False
  with assms(1) have n: "p_expired_exception self = None" by auto
  obtain r0 s0 w0 where c: "check_if_ready mgr (self, w) = (r0, s0, w0)"
    by (cases "check_if_ready mgr (self, w)") auto
  from assms(2) False c have "self' = s0"
    by (cases r0) (auto simp: is_ready_def)
  with check_if_ready_recorded[OF False n c] show ?thesis by simp
qed

lemma poll_loop_recorded:
  assumes "p_expired_exception self = None
           \<or> (p_is_ready self \<and> (\<exists>x. p_expired_exception self = Some (ResultsExpired x)))"
    and "poll_loop mgr timeout interval start clock (self, w) = Some (r, self', w')"
  shows "p_expired_exception self' = None
         \<or> (p_is_ready self' \<and> (\<exists>x. p_expired_exception self' = Some (ResultsExpired x)))"
  using assms
proof (induction clock arbitrary: self w)
  case Nil
  then show ?case by simp
next
  case (Cons now later)
  show ?case
  proof (cases "now - start < timeout")
    case False
    with Cons.prems show ?thesis by auto
  next
    case True
    obtain r1 s1 w1 where i: "is_ready mgr (self, w) = (r1, s1, w1)"
      by (cases "is_ready mgr (self, w)") auto
    note J = is_ready_recorded[OF Cons.prems(1) i]
    show ?thesis
    proof (cases r1)
      case (Inl e)
      with Cons.prems(2) True i have "self' = s1" by simp
      with J show ?thesis by simp
    next
      case (Inr b)
      show ?thesis
      proof (cases b)
        case True
        with Cons.prems(2) \<open>now - start < timeout\<close> i Inr have "self' = s1" by simp
        with J show ?thesis by simp
      next
        case False
        show ?thesis
        proof (cases "sleep interval w1")
          case (Inl e)
          with Cons.prems(2) \<open>now - start < timeout\<close> i \<open>r1 = Inr b\<close> False
          have "self' = s1" by simp
          with J show ?thesis by simp
        next
          case (Inr w2)
          with Cons.prems(2) \<open>now - start < timeout\<close> i \<open>r1 = Inr b\<close> False
          have "poll_loop mgr timeout interval start later (s1, w2) = Some (r, self', w')"
            by simp
          from Cons.IH[OF J this] show ?thesis .
        qed
      qed
    qed
  qed
qed

lemma step_recorded:
  assumes "p_expired_exception self = None
           \<or> (p_is_ready self \<and> (\<exists>x. p_expired_exception self = Some (ResultsExpired x)))"
    and "step mgr x (self, w) = Some (self', w')"
  shows "p_expired_exception self' = None
         \<or> (p_is_ready self' \<and> (\<exists>x. p_expired_exception self' = Some (ResultsExpired x)))"
proof (cases x)
  case IsReady
  obtain r1 where "is_ready mgr (self, w) = (r1, self', w')"
    using assms(2) IsReady by (cases "is_ready mgr (self, w)") auto
  from is_ready_recorded[OF assms(1) this] show ?thesis .
next
  case Get
  with assms show ?thesis by simp
next
  case (Poll t i c)
  with assms(2) obtain r1 where p: "poll mgr t i c (self, w) = Some (r1, self', w')" by auto
  then obtain s l r0 where "c = s # l" and "poll_loop mgr t i s l (self, w) = Some (r0, self', w')"
    by (auto simp: poll_def split: list.splits option.splits sum.splits)
  from poll_loop_recorded[OF assms(1) this(2)] show ?thesis .
qed

lemma run_recorded:
  assumes "p_expired_exception self = None
           \<or> (p_is_ready self \<and> (\<exists>x. p_expired_exception self = Some (ResultsExpired x)))"
    and "run mgr ops (self, w) = Some (self', w')"
  shows "p_expired_exception self' = None
         \<or> (p_is_ready self' \<and> (\<exists>x. p_expired_exception self' = Some (ResultsExpired x)))"
  using assms
proof (induction ops arbitrary: self w)
  case Nil
  then show ?case by simp
next
  case (Cons x xs)
  from Cons.prems(2) obtain s1 w1 where s: "step mgr x (self, w) = Some (s1, w1)"
    and r: "run mgr xs (s1, w1) = Some (self', w')"
    by (auto split: option.splits)
  from Cons.IH[OF step_recorded[OF Cons.prems(1) s] r] show ?case .
qed

text \<open>
  C4. Expired is sticky. On a request reached from a freshly constructed one by any
  sequence of public operations, once an expired exception is recorded the request
  is \<open>Expired\<close>, and after any further sequence of \<open>is_ready\<close>, \<open>poll\<close> and \<open>get\<close> it
  is still \<open>Expired\<close> and \<open>get\<close> raises \<open>ResultsExpired\<close>, whatever the manager would
  answer. From a request that is not \<open>Pending\<close> no sequence of public operations
  changes the state or what \<open>get\<close> gives, and every such sequence runs to its end
  leaving the request and the world as they were (no further check, no sleep).
\<close>

theorem expired_is_sticky:
  "(run mgr before (MembershipRequest_init requests data, w0) = Some (self, w)
      \<and> p_expired_exception self \<noteq> None
      \<and> run mgr later (self, w) = Some (self', w')
    \<longrightarrow> state self = Expired \<and> state self' = Expired
        \<and> (\<exists>x. get self' = Inl (ResultsExpired x)))
   \<and> (state self \<noteq> Pending \<and> run mgr later (self, w) = Some (self', w')
    \<longrightarrow> state self' = state self \<and> get self' = get self)
   \<and> (state self \<noteq> Pending \<and> list_all clocked later
    \<longrightarrow> run mgr later (self, w) = Some (self, w))"
proof (intro conjI impI)
  assume a: "run mgr before (MembershipRequest_init requests data, w0) = Some (self, w)
      \<and> p_expired_exception self \<noteq> None
      \<and> run mgr later (self, w) = Some (self', w')"
  have "p_expired_exception (MembershipRequest_init requests data) = None
        \<or> (p_is_ready (MembershipRequest_init requests data)
            \<and> (\<exists>x. p_expired_exception (MembershipRequest_init requests data) = Some (ResultsExpired x)))"
    by (simp add: MembershipRequest_init_def)
  from run_recorded[where mgr = mgr and ops = before and w = w0 and self' = self and w' = w, OF this] a
  have r: "p_is_ready self" and "\<exists>x. p_expired_exception self = Some (ResultsExpired x)"
    by blast+
  then obtain x where x: "p_expired_exception self = Some (ResultsExpired x)" by blast
  from run_ready[OF r] a have e: "self' = self" by blast
  from r x show "state self = Expired" by (simp add: state_def)
  with e show "state self' = Expired" by simp
  from e x show "\<exists>x. get self' = Inl (ResultsExpired x)" by (simp add: get_def)
next
  assume a: "state self \<noteq> Pending \<and> run mgr later (self, w) = Some (self', w')"
  then have "p_is_ready self" by (simp add: state_Pending_iff)
  from run_ready[OF this] a have "self' = self" by blast
  then show "state self' = state self" "get self' = get self" by simp_all
next
  assume a: "state self \<noteq> Pending \<and> list_all clocked later"
  then have "p_is_ready self" by (simp add: state_Pending_iff)
  from run_ready_clocked[OF this] a show "run mgr later (self, w) = Some (self, w)" by blast
qed

theorem expired_is_sticky_witness:
  "\<exists>self w.
     run (\<lambda>n rid. if n = 0 then Inl (ResultsExpired ''404'') else Inr []) [IsReady]
       (MembershipRequest_init [[''guid'' \<mapsto> ''g1'']] [''results_id'' \<mapsto> ''r1''],
        \<lparr>calls = [], naps = []\<rparr>) = Some (self, w)
     \<and> run (\<lambda>n rid. if n = 0 then Inl (ResultsExpired ''404'') else Inr [])
         [IsReady, Poll 30 2 [0, 1], Get, IsReady] (self, w) = Some (self, w)
     \<and> state self = Expired
     \<and> (\<exists>x. get self = Inl (ResultsExpired x))"
proof -
  let ?mgr = "\<lambda>n rid. if n = (0::nat) then Inl (ResultsExpired ''404'') else Inr [] :: exn + dict list"
  let ?init = "MembershipRequest_init [[''guid'' \<mapsto> ''g1'']] [''results_id'' \<mapsto> ''r1'']"
  let ?wi = "\<lparr>calls = [], naps = []\<rparr>"
  let ?self = "?init\<lparr>p_is_ready := True, p_expired_exception := Some (ResultsExpired ''404'')\<rparr>"
  let ?w = "\<lparr>calls = [''r1''], naps = []\<rparr>"
  let ?later = "[IsReady, Poll 30 2 [0, 1], Get, IsReady]"
  have a: "run ?mgr [IsReady] (?init, ?wi) = Some (?self, ?w)"
    by (simp add: is_ready_def check_if_ready_def getattr_def MembershipRequest_init_def Let_def)
  have b: "p_expired_exception ?self \<noteq> None" by simp
  have c: "state ?self \<noteq> Pending" by (simp add: state_def)
  have d: "list_all clocked ?later" by simp
  note T = expired_is_sticky[where mgr = ?mgr and before = "[IsReady]" and requests = "[[''guid'' \<mapsto> ''g1'']]"
      and data = "[''results_id'' \<mapsto> ''r1'']" and ?w0.0 = ?wi and self = ?self and w = ?w
      and later = ?later and self' = ?self and w' = ?w]
  from T c d have e: "run ?mgr ?later (?self, ?w) = Some (?self, ?w)" by blast
  from T a b e have "state ?self = Expired" and "\<exists>x. get ?self = Inl (ResultsExpired x)"
    by blast+
  with a e show ?thesis by blast
qed

subsection \<open>Polling\<close>

text \<open>
  C8. With \<open>timeout = 0\<close>, and a clock that does not run backwards between the two
  readings, the loop condition fails at its first evaluation: \<open>poll\<close> makes no check at
  all (so at most one), does not sleep, and returns what \<open>get\<close> gives on the unchanged
  request.
\<close>

theorem poll_timeout_zero:
  "start \<le> now \<Longrightarrow>
   poll mgr 0 interval (start # now # later) (self, w) = Some (get self, self, w)"
  by (simp add: poll_def)

theorem poll_timeout_zero_witness:
  "poll (\<lambda>n rid. Inr []) 0 2 [100, 100]
     (MembershipRequest_init [[''guid'' \<mapsto> ''g1'']] [''results_id'' \<mapsto> ''r1''],
      \<lparr>calls = [], naps = []\<rparr>)
   = Some (Inr None,
           MembershipRequest_init [[''guid'' \<mapsto> ''g1'']] [''results_id'' \<mapsto> ''r1''],
           \<lparr>calls = [], naps = []\<rparr>)"
  using poll_timeout_zero[of 100 100 "\<lambda>n rid. Inr []" 2 "[]"
      "MembershipRequest_init [[''guid'' \<mapsto> ''g1'']] [''results_id'' \<mapsto> ''r1'']"
      "\<lparr>calls = [], naps = []\<rparr>"]
  by (simp add: get_def MembershipRequest_init_def)

lemma poll_loop_not_ready:
  assumes "\<forall>k. \<exists>x. mgr k rid = Inl (ResultsNotReady x)"
    and "0 \<le> interval"
    and "timeout \<le> late - start"
  shows "\<not> p_is_ready self \<Longrightarrow> mr_data self ''results_id'' = Some rid \<Longrightarrow>
         \<forall>t\<in>set early. t - start < timeout \<Longrightarrow>
         \<exists>self' w'. poll_loop mgr timeout interval start (early @ late # rest) (self, w)
                      = Some (Inr (), self', w')
           \<and> \<not> p_is_ready self' \<and> mr_data self' = mr_data self
           \<and> p_expired_exception self' = p_expired_exception self
           \<and> calls w' = calls w @ replicate (length early) rid
           \<and> naps w' = naps w @ replicate (length early) interval
           \<and> ((early = [] \<and> p_not_ready_exception self' = p_not_ready_exception self)
              \<or> (\<exists>x. p_not_ready_exception self' = Some (ResultsNotReady x)))"
proof (induction early arbitrary: self w)
  case Nil
  with assms(3) show ?case by simp
next
  case (Cons t early)
  from assms(1) obtain x where x: "mgr (length (calls w)) rid = Inl (ResultsNotReady x)"
    by blast
  let ?s = "self\<lparr>p_is_ready := False, p_not_ready_exception := Some (ResultsNotReady x)\<rparr>"
  let ?w = "w\<lparr>calls := calls w @ [rid]\<rparr>"
  let ?w2 = "?w\<lparr>naps := naps ?w @ [interval]\<rparr>"
  have i: "is_ready mgr (self, w) = (Inr False, ?s, ?w)"
    using Cons.prems(1,2) x by (rule is_ready_not_ready[where mgr = mgr and w = w])
  have sl: "sleep interval ?w = Inr ?w2" using assms(2) by (simp add: sleep_def)
  from Cons.prems(3) have t: "t - start < timeout" and rest: "\<forall>t\<in>set early. t - start < timeout"
    by simp_all
  have unfold: "poll_loop mgr timeout interval start ((t # early) @ late # rest) (self, w)
        = poll_loop mgr timeout interval start (early @ late # rest) (?s, ?w2)"
    using t i sl by simp
  have a: "\<not> p_is_ready ?s" by simp
  have b: "mr_data ?s ''results_id'' = Some rid" using Cons.prems(2) by simp
  from Cons.IH[OF a b rest, of ?w2] obtain self' w' where
    r: "poll_loop mgr timeout interval start (early @ late # rest) (?s, ?w2) = Some (Inr (), self', w')" and
    p: "\<not> p_is_ready self'" "mr_data self' = mr_data ?s"
       "p_expired_exception self' = p_expired_exception ?s"
       "calls w' = calls ?w2 @ replicate (length early) rid"
       "naps w' = naps ?w2 @ replicate (length early) interval" and
    q: "(early = [] \<and> p_not_ready_exception self' = p_not_ready_exception ?s)
        \<or> (\<exists>x. p_not_ready_exception self' = Some (ResultsNotReady x))"
    by blast
  from q have nr: "\<exists>x. p_not_ready_exception self' = Some (ResultsNotReady x)" by auto
  have c: "calls w' = calls w @ replicate (length (t # early)) rid"
    using p(4) by (simp add: replicate_app_Cons_same)
  have n: "naps w' = naps w @ replicate (length (t # early)) interval"
    using p(5) by (simp add: replicate_app_Cons_same)
  from unfold r have "poll_loop mgr timeout interval start ((t # early) @ late # rest) (self, w)
        = Some (Inr (), self', w')" by simp
  with p(1,2,3) c n nr show ?case by simp
qed

text \<open>
  C6. \<open>poll\<close> is the loop of the source. When the elapsed time has reached the timeout
  at an evaluation of the condition, it returns \<open>get\<close> without a check. Otherwise it calls
  \<open>is_ready\<close>: on \<open>True\<close> it returns \<open>get\<close> of the resulting request; on \<open>False\<close> it
  sleeps for \<open>interval\<close> and goes on with the next clock reading. When the request
  never becomes ready and the timeout elapses after at least one check, \<open>poll\<close> has
  made one check and one sleep of \<open>interval\<close> per reading below the timeout, and
  raises the recorded \<open>ResultsNotReady\<close>, which is not a \<open>ResultsExpired\<close>.
\<close>

theorem poll_loops_until_timeout_or_ready:
  "(timeout \<le> now - start \<longrightarrow>
      poll mgr timeout interval (start # now # later) (self, w) = Some (get self, self, w))
   \<and> (now - start < timeout \<and> is_ready mgr (self, w) = (Inr True, self', w') \<longrightarrow>
      poll mgr timeout interval (start # now # later) (self, w) = Some (get self', self', w'))
   \<and> (now - start < timeout \<and> is_ready mgr (self, w) = (Inr False, self', w') \<and> 0 \<le> interval \<longrightarrow>
      poll mgr timeout interval (start # now # later) (self, w)
        = poll mgr timeout interval (start # later) (self', w'\<lparr>naps := naps w' @ [interval]\<rparr>))
   \<and> (state self = Pending \<and> p_expired_exception self = None
        \<and> mr_data self ''results_id'' = Some rid
        \<and> (\<forall>k. \<exists>x. mgr k rid = Inl (ResultsNotReady x))
        \<and> 0 \<le> interval \<and> early \<noteq> []
        \<and> (\<forall>t\<in>set early. t - start < timeout) \<and> timeout \<le> late - start \<longrightarrow>
      (\<exists>x self'' w''.
         poll mgr timeout interval (start # early @ late # rest) (self, w)
           = Some (Inl (ResultsNotReady x), self'', w'')
         \<and> (\<forall>y. ResultsNotReady x \<noteq> ResultsExpired y)
         \<and> state self'' = Pending
         \<and> calls w'' = calls w @ replicate (length early) rid
         \<and> naps w'' = naps w @ replicate (length early) interval))"
proof (intro conjI impI)
  assume "timeout \<le> now - start"
  then show "poll mgr timeout interval (start # now # later) (self, w) = Some (get self, self, w)"
    by (simp add: poll_def)
next
  assume "now - start < timeout \<and> is_ready mgr (self, w) = (Inr True, self', w')"
  then show "poll mgr timeout interval (start # now # later) (self, w) = Some (get self', self', w')"
    by (simp add: poll_def)
next
  assume "now - start < timeout \<and> is_ready mgr (self, w) = (Inr False, self', w') \<and> 0 \<le> interval"
  then show "poll mgr timeout interval (start # now # later) (self, w)
        = poll mgr timeout interval (start # later) (self', w'\<lparr>naps := naps w' @ [interval]\<rparr>)"
    by (simp add: poll_def sleep_def)
next
  assume a: "state self = Pending \<and> p_expired_exception self = None
        \<and> mr_data self ''results_id'' = Some rid
        \<and> (\<forall>k. \<exists>x. mgr k rid = Inl (ResultsNotReady x))
        \<and> 0 \<le> interval \<and> early \<noteq> []
        \<and> (\<forall>t\<in>set early. t - start < timeout) \<and> timeout \<le> late - start"
  then have nr: "\<not> p_is_ready self" by (simp add: state_Pending_iff)
  from a have h: "\<forall>k. \<exists>x. mgr k rid = Inl (ResultsNotReady x)" "0 \<le> interval"
    "timeout \<le> late - start" "mr_data self ''results_id'' = Some rid"
    "\<forall>t\<in>set early. t - start < timeout" "early \<noteq> []" "p_expired_exception self = None"
    by simp_all
  from poll_loop_not_ready[where mgr = mgr and rid = rid and self = self and w = w
      and early = early and rest = rest, OF h(1,2,3) nr h(4,5)]
  obtain s1 w1 where
    r: "poll_loop mgr timeout interval start (early @ late # rest) (self, w) = Some (Inr (), s1, w1)" and
    p: "\<not> p_is_ready s1" "p_expired_exception s1 = p_expired_exception self"
       "calls w1 = calls w @ replicate (length early) rid"
       "naps w1 = naps w @ replicate (length early) interval" and
    q: "(early = [] \<and> p_not_ready_exception s1 = p_not_ready_exception self)
        \<or> (\<exists>x. p_not_ready_exception s1 = Some (ResultsNotReady x))"
    by blast
  from q h(6) obtain x where x: "p_not_ready_exception s1 = Some (ResultsNotReady x)" by blast
  from p(2) h(7) x have g: "get s1 = Inl (ResultsNotReady x)" by (simp add: get_def)
  from r g have "poll mgr timeout interval (start # early @ late # rest) (self, w)
           = Some (Inl (ResultsNotReady x), s1, w1)"
    by (simp add: poll_def)
  moreover have "\<forall>y. ResultsNotReady x \<noteq> ResultsExpired y" by simp
  moreover from p(1) have "state s1 = Pending" by (simp add: state_Pending_iff)
  ultimately show "\<exists>x self'' w''.
         poll mgr timeout interval (start # early @ late # rest) (self, w)
           = Some (Inl (ResultsNotReady x), self'', w'')
         \<and> (\<forall>y. ResultsNotReady x \<noteq> ResultsExpired y)
         \<and> state self'' = Pending
         \<and> calls w'' = calls w @ replicate (length early) rid
         \<and> naps w'' = naps w @ replicate (length early) interval"
    using p(3,4) by blast
qed

theorem poll_loops_until_timeout_or_ready_witness:
  "poll (\<lambda>n rid. Inl (ResultsNotReady ''503'')) 5 2 [0, 5]
     (MembershipRequest_init [[''guid'' \<mapsto> ''g1'']] [''results_id'' \<mapsto> ''r1''],
      \<lparr>calls = [], naps = []\<rparr>)
     = Some (Inr None, MembershipRequest_init [[''guid'' \<mapsto> ''g1'']] [''results_id'' \<mapsto> ''r1''],
             \<lparr>calls = [], naps = []\<rparr>)
   \<and> poll (\<lambda>n rid. Inl (ResultsExpired ''404'')) 5 2 [0, 1]
     (MembershipRequest_init [[''guid'' \<mapsto> ''g1'']] [''results_id'' \<mapsto> ''r1''],
      \<lparr>calls = [], naps = []\<rparr>)
     = Some (Inl (ResultsExpired ''404''),
             (MembershipRequest_init [[''guid'' \<mapsto> ''g1'']] [''results_id'' \<mapsto> ''r1''])
               \<lparr>p_is_ready := True, p_expired_exception := Some (ResultsExpired ''404'')\<rparr>,
             \<lparr>calls = [''r1''], naps = []\<rparr>)
   \<and> poll (\<lambda>n rid. Inl (ResultsNotReady ''503'')) 5 2 [0, 1, 3, 5]
     (MembershipRequest_init [[''guid'' \<mapsto> ''g1'']] [''results_id'' \<mapsto> ''r1''],
      \<lparr>calls = [], naps = []\<rparr>)
     = poll (\<lambda>n rid. Inl (ResultsNotReady ''503'')) 5 2 [0, 3, 5]
         ((MembershipRequest_init [[''guid'' \<mapsto> ''g1'']] [''results_id'' \<mapsto> ''r1''])
            \<lparr>p_is_ready := False, p_not_ready_exception := Some (ResultsNotReady ''503'')\<rparr>,
          \<lparr>calls = [''r1''], naps = [2]\<rparr>)
   \<and> (\<exists>x self'' w''.
        poll (\<lambda>n rid. Inl (ResultsNotReady ''503'')) 5 2 [0, 1, 3, 5]
          (MembershipRequest_init [[''guid'' \<mapsto> ''g1'']] [''results_id'' \<mapsto> ''r1''],
           \<lparr>calls = [], naps = []\<rparr>)
          = Some (Inl (ResultsNotReady x), self'', w'')
        \<and> state self'' = Pending
        \<and> calls w'' = [''r1'', ''r1''] \<and> naps w'' = [2, 2])"
proof -
  let ?nr = "\<lambda>n rid. Inl (ResultsNotReady ''503'') :: exn + dict list"
  let ?ex = "\<lambda>n rid. Inl (ResultsExpired ''404'') :: exn + dict list"
  let ?init = "MembershipRequest_init [[''guid'' \<mapsto> ''g1'']] [''results_id'' \<mapsto> ''r1'']"
  let ?wi = "\<lparr>calls = [], naps = []\<rparr>"
  let ?se = "?init\<lparr>p_is_ready := True, p_expired_exception := Some (ResultsExpired ''404'')\<rparr>"
  let ?sn = "?init\<lparr>p_is_ready := False, p_not_ready_exception := Some (ResultsNotReady ''503'')\<rparr>"
  let ?w1 = "\<lparr>calls = [''r1''], naps = []\<rparr>"
  have pend: "state ?init = Pending" by (simp add: state_def MembershipRequest_init_def)
  have npr: "\<not> p_is_ready ?init" by (simp add: MembershipRequest_init_def)
  have noexp: "p_expired_exception ?init = None" by (simp add: MembershipRequest_init_def)
  have rid: "mr_data ?init ''results_id'' = Some ''r1''" by (simp add: MembershipRequest_init_def)
  have g: "get ?init = Inr None" by (simp add: get_def MembershipRequest_init_def)
  have ge: "get ?se = Inl (ResultsExpired ''404'')" by (simp add: get_def)
  have ie: "is_ready ?ex (?init, ?wi) = (Inr True, ?se, ?w1)"
    using is_ready_expired[where mgr = ?ex and w = ?wi and x = "''404''", OF npr rid] by simp
  have inr: "is_ready ?nr (?init, ?wi) = (Inr False, ?sn, ?w1)"
    using is_ready_not_ready[where mgr = ?nr and w = ?wi and x = "''503''", OF npr rid] by simp
  have c1: "poll ?nr 5 2 [0, 5] (?init, ?wi) = Some (Inr None, ?init, ?wi)"
    using poll_loops_until_timeout_or_ready
      [where mgr = ?nr and timeout = 5 and interval = 2 and start = 0 and now = 5
         and later = "[]" and self = ?init and w = ?wi] g
    by simp
  have c2: "poll ?ex 5 2 [0, 1] (?init, ?wi) = Some (Inl (ResultsExpired ''404''), ?se, ?w1)"
    using poll_loops_until_timeout_or_ready
      [where mgr = ?ex and timeout = 5 and interval = 2 and start = 0 and now = 1
         and later = "[]" and self = ?init and w = ?wi and self' = ?se and w' = ?w1] ie ge
    by simp
  have c3: "poll ?nr 5 2 [0, 1, 3, 5] (?init, ?wi)
              = poll ?nr 5 2 [0, 3, 5] (?sn, \<lparr>calls = [''r1''], naps = [2]\<rparr>)"
    using poll_loops_until_timeout_or_ready
      [where mgr = ?nr and timeout = 5 and interval = 2 and start = 0 and now = 1
         and later = "[3, 5]" and self = ?init and w = ?wi and self' = ?sn and w' = ?w1] inr
    by simp
  have "\<exists>x self'' w''.
         poll ?nr 5 2 (0 # [1, 3] @ 5 # []) (?init, ?wi) = Some (Inl (ResultsNotReady x), self'', w'')
         \<and> (\<forall>y. ResultsNotReady x \<noteq> ResultsExpired y)
         \<and> state self'' = Pending
         \<and> calls w'' = calls ?wi @ replicate (length [1, 3 :: int]) ''r1''
         \<and> naps w'' = naps ?wi @ replicate (length [1, 3 :: int]) 2"
    using poll_loops_until_timeout_or_ready
      [where mgr = ?nr and timeout = 5 and interval = 2 and start = 0
         and early = "[1, 3]" and late = 5 and rest = "[]" and rid = "''r1''"
         and self = ?init and w = ?wi] pend noexp rid
    by simp
  then have c4: "\<exists>x self'' w''.
        poll ?nr 5 2 [0, 1, 3, 5] (?init, ?wi) = Some (Inl (ResultsNotReady x), self'', w'')
        \<and> state self'' = Pending
        \<and> calls w'' = [''r1'', ''r1''] \<and> naps w'' = [2, 2]"
    by (simp add: numeral_2_eq_2)
  from c1 c2 c3 c4 show ?thesis by (intro conjI)
qed

end
